theory Spec2Isabelle
  imports Complex_Main
begin

section \<open>Numbers and the library functions the program calls\<close>

text \<open>
  The program computes with the host language's Numbers. They are modelled as the
  real numbers: arithmetic is exact (but for the one quotient below that is printed
  digit by digit), and there is no NaN, no infinity and no signed zero. \<open>Math.sin\<close>, \<open>Math.cos\<close>, \<open>Math.asin\<close>, \<open>Math.sqrt\<close> and \<open>Math.PI\<close> are the
  real functions \<open>sin\<close>, \<open>cos\<close>, \<open>arcsin\<close>, \<open>sqrt\<close> and the constant \<open>pi\<close>.
\<close>

text \<open>The remainder operator \<open>n % d\<close>: the quotient is truncated toward zero, so the
  result has the sign of the dividend. The program only divides by 360.\<close>

definition js_trunc :: "real \<Rightarrow> int" where
  "js_trunc x = (if x < 0 then \<lceil>x\<rceil> else \<lfloor>x\<rfloor>)"

definition js_rem :: "real \<Rightarrow> real \<Rightarrow> real" where
  "js_rem n d = n - d * of_int (js_trunc (n / d))"

text \<open>\<open>Math.atan2(y, x)\<close>: the angle of the point \<open>(x, y)\<close>, between \<open>-pi\<close> and \<open>pi\<close>;
  \<open>Math.atan2(0, 0)\<close> is \<open>0\<close>.\<close>

definition atan2 :: "real \<Rightarrow> real \<Rightarrow> real" where
  "atan2 y x =
     (if 0 < x then arctan (y / x)
      else if x < 0 then (if 0 \<le> y then arctan (y / x) + pi else arctan (y / x) - pi)
      else if 0 < y then pi / 2
      else if y < 0 then - (pi / 2)
      else 0)"




text \<open>Decimal digits of a natural number, most significant first, no leading zero.\<close>

definition digit_char :: "nat \<Rightarrow> char" where
  "digit_char d = ''0123456789'' ! (d mod 10)"

fun digits :: "nat \<Rightarrow> string" where
  "digits n = (if n < 10 then [digit_char n] else digits (n div 10) @ [digit_char (n mod 10)])"

declare digits.simps [simp del]


section \<open>Geo math\<close>

definition degToRad :: "real \<Rightarrow> real" where
  "degToRad deg = deg * pi / 180"

definition haversineFunc :: "real \<Rightarrow> real" where
  "haversineFunc theta = (1 - cos (degToRad theta)) / 2"

definition haversineDistance :: "real \<Rightarrow> real \<Rightarrow> real \<Rightarrow> real \<Rightarrow> real" where
  "haversineDistance lat1 lon1 lat2 lon2 =
     (let haversineGcd = haversineFunc (lat2 - lat1) +
            cos (degToRad lat1) * cos (degToRad lat2) * haversineFunc (lon2 - lon1);
          gcd_angle = arcsin (sqrt haversineGcd);
          radiusMeters = 6371000
      in 2 * radiusMeters * gcd_angle)"

definition bearingBetween :: "real \<Rightarrow> real \<Rightarrow> real \<Rightarrow> real \<Rightarrow> real" where
  "bearingBetween lat1 lon1 lat2 lon2 =
     (let y = sin (degToRad (lon2 - lon1)) * cos (degToRad lat2);
          x = cos (degToRad lat1) * sin (degToRad lat2) -
              sin (degToRad lat1) * cos (degToRad lat2) * cos (degToRad (lon2 - lon1));
          theta = atan2 y x;
          bearing = js_rem (theta * 180 / pi + 360) 360
      in bearing)"

section \<open>The application's data\<close>

text \<open>An identifier is whatever value the search service put under \<open>id\<close>; the
  selection starts as \<open>null\<close>. Only the primitive values are modelled.\<close>

datatype js_id = IdNull | IdUndefined | IdBool bool | IdNum real | IdStr string

text \<open>The truth value a condition gives an identifier: \<open>null\<close>, \<open>undefined\<close>,
  \<open>false\<close>, \<open>0\<close> and the empty string are false.\<close>

fun truthy :: "js_id \<Rightarrow> bool" where
  "truthy IdNull = False"
| "truthy IdUndefined = False"
| "truthy (IdBool b) = b"
| "truthy (IdNum n) = (n \<noteq> 0)"
| "truthy (IdStr s) = (s \<noteq> [])"

record coords =
  latitude :: real
  longitude :: real

record pub = coords +
  name :: "string option"
  pub_id :: js_id

datatype level = Info | Error

text \<open>
  The fields of \<open>Application\<close>, and what it has written to the page: the status pane
  (\<open>None\<close> when hidden), the distance handed to \<open>setDistance\<close>, the name shown, the
  list shown and the rotation of the compass. \<open>pendingFetch\<close> says that
  \<open>_pendingFetch\<close> holds a promise. \<open>fetchesInFlight\<close> is not a field of the program:
  it counts the calls of \<open>fetchNearbyPubs\<close> that have not settled yet.
\<close>

record app =
  currentLocation :: "coords option"
  currentHeading :: "real option"
  nearbyPubs :: "pub list option"
  selectedPubId :: js_id
  pendingFetch :: bool
  fetchesInFlight :: nat
  status :: "(level \<times> string) option"
  distanceShown :: "real option"
  nameShown :: "string option"
  listShown :: "pub list"
  rotation :: "real option"

section \<open>Display strings\<close>


text \<open>The handlers call \<open>setStatus\<close> with \<open>fatal\<close> false or absent, so it only writes
  the status pane.\<close>

definition setStatus :: "string \<Rightarrow> level \<Rightarrow> app \<Rightarrow> app" where
  "setStatus msg lvl s = s\<lparr>status := Some (lvl, msg)\<rparr>"

definition clearStatus :: "app \<Rightarrow> app" where
  "clearStatus s = s\<lparr>status := None\<rparr>"

section \<open>Resolving the current target\<close>

definition distanceSort :: "coords \<Rightarrow> pub \<Rightarrow> pub \<Rightarrow> real" where
  "distanceSort loc pub1 pub2 =
     (let d1 = haversineDistance (latitude loc) (longitude loc) (latitude pub1) (longitude pub1);
          d2 = haversineDistance (latitude loc) (longitude loc) (latitude pub2) (longitude pub2)
      in d1 - d2)"

text \<open>The distance the program computes from a location to a pub.\<close>

abbreviation distanceFrom :: "coords \<Rightarrow> pub \<Rightarrow> real" where
  "distanceFrom loc p \<equiv>
     haversineDistance (latitude loc) (longitude loc) (latitude p) (longitude p)"

text \<open>
  \<open>Array.prototype.toSorted\<close> returns a new array, sorted by the comparator, and is
  stable. An insertion sort that puts each element before the first one it does not
  follow, taking the elements from the right, is such a sort.
\<close>

fun insertSorted :: "('a \<Rightarrow> 'a \<Rightarrow> real) \<Rightarrow> 'a \<Rightarrow> 'a list \<Rightarrow> 'a list" where
  "insertSorted cmp x [] = [x]"
| "insertSorted cmp x (y # ys) =
     (if cmp x y \<le> 0 then x # y # ys else y # insertSorted cmp x ys)"

definition toSorted :: "('a \<Rightarrow> 'a \<Rightarrow> real) \<Rightarrow> 'a list \<Rightarrow> 'a list" where
  "toSorted cmp xs = foldr (insertSorted cmp) xs []"

text \<open>\<open>selectedPub\<close> reads the location, the candidates and the selection; both
  callers have checked that the first two are there. \<open>None\<close> is \<open>undefined\<close>, the
  first element of an empty array.\<close>

definition selectedPub :: "coords \<Rightarrow> pub list \<Rightarrow> js_id \<Rightarrow> pub option" where
  "selectedPub loc pubs sel =
     (case (if truthy sel then find (\<lambda>p. pub_id p = sel) pubs else None) of
        Some p \<Rightarrow> Some p
      | None \<Rightarrow>
         (case toSorted (distanceSort loc) pubs of
            [] \<Rightarrow> None
          | closestPub # _ \<Rightarrow> Some closestPub))"

section \<open>Updating the page\<close>

text \<open>The heading is \<open>null\<close> until the first orientation event; in the subtraction
  \<open>null\<close> counts as 0.\<close>

definition toNumber :: "real option \<Rightarrow> real" where
  "toNumber v = (case v of None \<Rightarrow> 0 | Some x \<Rightarrow> x)"

definition shortRelBearing :: "real \<Rightarrow> real \<Rightarrow> real" where
  "shortRelBearing bearing heading =
     (let relBearing = js_rem (bearing - heading + 360) 360
      in js_rem (relBearing + 540) 360 - 180)"

text \<open>\<open>updateBearingUI\<close> and \<open>updateUI\<close> return at once unless the location is known
  and the candidates are a non-empty list. Past that guard \<open>selectedPub\<close> always
  yields a pub (lemma \<open>selectedPub_defined\<close>), so the branch for \<open>None\<close> is never
  taken.\<close>

definition updateBearingUI :: "app \<Rightarrow> app" where
  "updateBearingUI s =
     (case currentLocation s of
        None \<Rightarrow> s
      | Some loc \<Rightarrow>
         (case nearbyPubs s of
            None \<Rightarrow> s
          | Some pubs \<Rightarrow>
             if pubs = [] then s
             else
               (case selectedPub loc pubs (selectedPubId s) of
                  None \<Rightarrow> s
                | Some closestPub \<Rightarrow>
                   (let bearing = bearingBetween (latitude loc) (longitude loc)
                                    (latitude closestPub) (longitude closestPub)
                    in s\<lparr>rotation :=
                          Some (shortRelBearing bearing (toNumber (currentHeading s)))\<rparr>))))"

definition displayName :: "pub \<Rightarrow> string" where
  "displayName p = (case name p of None \<Rightarrow> ''Unnamed Pub'' | Some n \<Rightarrow> n)"

definition updateUI :: "app \<Rightarrow> app" where
  "updateUI s =
     (case currentLocation s of
        None \<Rightarrow> s
      | Some loc \<Rightarrow>
         (case nearbyPubs s of
            None \<Rightarrow> s
          | Some pubs \<Rightarrow>
             if pubs = [] then s
             else
               (case selectedPub loc pubs (selectedPubId s) of
                  None \<Rightarrow> s
                | Some closestPub \<Rightarrow>
                   (let distance = haversineDistance (latitude loc) (longitude loc)
                                     (latitude closestPub) (longitude closestPub)
                    in updateBearingUI
                         ((clearStatus s)
                            \<lparr>distanceShown := Some distance,
                             nameShown := Some (displayName closestPub),
                             listShown := toSorted (distanceSort loc) pubs\<rparr>)))))"

section \<open>Fetching the candidates\<close>

text \<open>
  What the search service can answer. The request itself can fail (\<open>NetworkError\<close>),
  or a response arrives with its status code and a body: not JSON at all, JSON
  without a member \<open>elements\<close>, JSON whose \<open>elements\<close> is not an array, or an array of
  elements. An element has its point under \<open>center\<close> or in \<open>lat\<close> and \<open>lon\<close>, and its
  name in \<open>tags\<close>, which may be missing.
\<close>

record element =
  el_center :: "(real \<times> real) option"
  el_lat :: real
  el_lon :: real
  el_tags :: "string option option"
  el_id :: js_id

datatype payload = NotJson | NoElements | NotArray | Elements "element list"

datatype outcome = NetworkError | Response nat payload

datatype settled = Fulfilled | Rejected

text \<open>The function mapped over the elements; \<open>None\<close> is the TypeError of reading
  \<open>name\<close> from missing tags.\<close>

definition toPub :: "element \<Rightarrow> pub option" where
  "toPub r =
     (case el_tags r of
        None \<Rightarrow> None
      | Some nm \<Rightarrow>
         (case el_center r of
            Some (lat, lon) \<Rightarrow>
              Some \<lparr>latitude = lat, longitude = lon, name = nm, pub_id = el_id r\<rparr>
          | None \<Rightarrow>
              Some \<lparr>latitude = el_lat r, longitude = el_lon r, name = nm, pub_id = el_id r\<rparr>))"

fun mapElements :: "element list \<Rightarrow> pub list option" where
  "mapElements [] = Some []"
| "mapElements (r # rs) =
     (case toPub r of
        None \<Rightarrow> None
      | Some p \<Rightarrow> (case mapElements rs of None \<Rightarrow> None | Some ps \<Rightarrow> Some (p # ps)))"

text \<open>\<open>fetchNearbyPubs\<close> up to its first \<open>await\<close>.\<close>

definition fetchNearbyPubs_begin :: "app \<Rightarrow> app" where
  "fetchNearbyPubs_begin s = setStatus ''Fetching nearby pubs'' Info s"

text \<open>\<open>fetchNearbyPubs\<close> from there on, given what the service answered. Nothing is
  written between the arrival of the response and that of its body, so the two are
  one step.\<close>

definition fetchNearbyPubs_resume :: "outcome \<Rightarrow> app \<Rightarrow> settled \<times> app" where
  "fetchNearbyPubs_resume out s =
     (case out of
        NetworkError \<Rightarrow> (Rejected, s)
      | Response code body \<Rightarrow>
         if \<not> (200 \<le> code \<and> code \<le> 299)
         then (Fulfilled, setStatus (''Error fetching local pubs: '' @ digits code) Error s)
         else
           (case body of
              NotJson \<Rightarrow> (Rejected, s)
            | NotArray \<Rightarrow> (Rejected, s)
            | NoElements \<Rightarrow> (Fulfilled, updateUI (s\<lparr>nearbyPubs := Some []\<rparr>))
            | Elements rs \<Rightarrow>
               (case mapElements rs of
                  None \<Rightarrow> (Rejected, s)
                | Some results \<Rightarrow> (Fulfilled, updateUI (s\<lparr>nearbyPubs := Some results\<rparr>)))))"

section \<open>The event handlers\<close>

definition initial :: app where
  "initial =
     \<lparr>currentLocation = None, currentHeading = None, nearbyPubs = None,
      selectedPubId = IdNull, pendingFetch = False, fetchesInFlight = 0,
      status = Some (Info, ''Fetching location''), distanceShown = None,
      nameShown = None, listShown = [], rotation = None\<rparr>"

definition setHeading :: "real \<Rightarrow> app \<Rightarrow> app" where
  "setHeading alpha s = updateBearingUI (s\<lparr>currentHeading := Some (360 - alpha)\<rparr>)"

definition setCoords :: "coords \<Rightarrow> app \<Rightarrow> app" where
  "setCoords position_coords s =
     (let oldCoords = currentLocation s;
          s1 = updateUI (s\<lparr>currentLocation := Some position_coords\<rparr>)
      in if (case oldCoords of
               None \<Rightarrow> False
             | Some old \<Rightarrow>
                 haversineDistance (latitude position_coords) (longitude position_coords)
                   (latitude old) (longitude old) < 250)
         then s1
         else if pendingFetch s1 then s1
         else (fetchNearbyPubs_begin s1)
                \<lparr>pendingFetch := True, fetchesInFlight := Suc (fetchesInFlight s1)\<rparr>)"

text \<open>The fetch settles: the rest of \<open>fetchNearbyPubs\<close> runs, then the \<open>finally\<close>
  callback.\<close>

definition fetchSettled :: "outcome \<Rightarrow> app \<Rightarrow> app" where
  "fetchSettled out s =
     (let s' = snd (fetchNearbyPubs_resume out s)
      in s'\<lparr>pendingFetch := False, fetchesInFlight := fetchesInFlight s' - 1\<rparr>)"

text \<open>The \<open>change\<close> listener of a radio button of the list.\<close>

definition selectPub :: "js_id \<Rightarrow> app \<Rightarrow> app" where
  "selectPub i s = updateUI (s\<lparr>selectedPubId := i\<rparr>)"

datatype event =
    PositionEvent coords
  | OrientationEvent real
  | FetchSettled outcome
  | PubSelected js_id

fun handle :: "event \<Rightarrow> app \<Rightarrow> app" where
  "handle (PositionEvent c) s = setCoords c s"
| "handle (OrientationEvent alpha) s = setHeading alpha s"
| "handle (FetchSettled out) s = fetchSettled out s"
| "handle (PubSelected i) s = selectPub i s"

text \<open>A fetch can settle only while one is in flight, and only a pub of the list
  shown can be selected.\<close>

fun enabled :: "event \<Rightarrow> app \<Rightarrow> bool" where
  "enabled (FetchSettled out) s = (0 < fetchesInFlight s)"
| "enabled (PubSelected i) s = (i \<in> pub_id ` set (listShown s))"
| "enabled e s = True"

inductive reachable :: "app \<Rightarrow> bool" where
  start: "reachable initial"
| step: "reachable s \<Longrightarrow> enabled e s \<Longrightarrow> reachable (handle e s)"

section \<open>Properties of the remainder and of the arctangent\<close>

lemma js_rem_nonneg:
  assumes "0 \<le> n" "0 < d"
  shows "0 \<le> js_rem n d \<and> js_rem n d < d"
proof -
  have q: "0 \<le> n / d" using assms by simp
  have tr: "js_trunc (n / d) = \<lfloor>n / d\<rfloor>" using q by (simp add: js_trunc_def)
  have dn: "d * (n / d) = n" using assms(2) by simp
  have "d * of_int \<lfloor>n / d\<rfloor> \<le> d * (n / d)"
    using assms(2) by (intro mult_left_mono) simp_all
  moreover have "d * (n / d) < d * (of_int \<lfloor>n / d\<rfloor> + 1)"
    using assms(2) by (intro mult_strict_left_mono) linarith+
  ultimately show ?thesis unfolding js_rem_def tr dn by (simp add: algebra_simps)
qed

lemma js_rem_neg:
  assumes "n < 0" "0 < d"
  shows "- d < js_rem n d \<and> js_rem n d \<le> 0"
proof -
  have q: "n / d < 0" using assms by (simp add: divide_neg_pos)
  have tr: "js_trunc (n / d) = \<lceil>n / d\<rceil>" using q by (simp add: js_trunc_def)
  have dn: "d * (n / d) = n" using assms(2) by simp
  have "d * (n / d) \<le> d * of_int \<lceil>n / d\<rceil>"
    using assms(2) by (intro mult_left_mono) simp_all
  moreover have "d * (of_int \<lceil>n / d\<rceil> - 1) < d * (n / d)"
    using assms(2) by (intro mult_strict_left_mono) linarith+
  ultimately show ?thesis unfolding js_rem_def tr dn by (simp add: algebra_simps)
qed

lemma js_rem_congruent: "\<exists>k::int. js_rem n d = n - d * of_int k"
  unfolding js_rem_def by blast

lemma atan2_range: "- pi \<le> atan2 y x \<and> atan2 y x \<le> pi"
proof -
  have a: "- (pi / 2) < arctan (y / x)" "arctan (y / x) < pi / 2"
    by (rule arctan_lbound, rule arctan_ubound)
  have neg: "x < 0 \<Longrightarrow> 0 \<le> y \<Longrightarrow> arctan (y / x) \<le> 0"
    by (simp add: divide_nonneg_neg)
  have pos: "x < 0 \<Longrightarrow> y < 0 \<Longrightarrow> 0 \<le> arctan (y / x)"
    by (simp add: divide_nonpos_neg)
  show ?thesis
    unfolding atan2_def using a neg pos pi_gt_zero by (auto simp: not_less)
qed

section \<open>Properties of the geo math\<close>

lemma degToRad_minus: "degToRad (a - b) = - degToRad (b - a)"
  by (simp add: degToRad_def left_diff_distrib diff_divide_distrib)

lemma haversineFunc_minus: "haversineFunc (a - b) = haversineFunc (b - a)"
  by (simp add: haversineFunc_def degToRad_minus [of a b])

lemma haversine_self: "haversineDistance lat lon lat lon = 0"
  by (simp add: haversineDistance_def haversineFunc_def degToRad_def)

lemma haversine_sym:
  "haversineDistance lat1 lon1 lat2 lon2 = haversineDistance lat2 lon2 lat1 lon1"
  unfolding haversineDistance_def
    haversineFunc_minus [of lat2 lat1] haversineFunc_minus [of lon2 lon1]
  by (simp only: mult.commute [of "cos (degToRad lat1)" "cos (degToRad lat2)"])

text \<open>The argument of the square root and of the arcsine is always between 0 and 1,
  so the program never leaves the domain of either.\<close>

lemma half_bounds:
  fixes c :: real
  assumes "- 1 \<le> c" "c \<le> 1"
  shows "0 \<le> (1 + c) / 2" "(1 + c) / 2 \<le> 1" "0 \<le> (1 - c) / 2" "(1 - c) / 2 \<le> 1"
  using assms by auto

lemma haversineGcd_bounds:
  fixes a b l :: real
  defines "h \<equiv> (1 - cos (b - a)) / 2 + cos a * cos b * ((1 - cos l) / 2)"
  shows "0 \<le> h \<and> h \<le> 1"
proof -
  define w where "w = (1 + cos l) / 2"
  define p where "p = (1 - cos (b - a)) / 2"
  define q where "q = (1 + cos (b + a)) / 2"
  have w: "0 \<le> w" "w \<le> 1"
    unfolding w_def by (rule half_bounds; simp)+
  have p: "0 \<le> p" "p \<le> 1"
    unfolding p_def by (rule half_bounds; simp)+
  have q: "0 \<le> q" "q \<le> 1"
    unfolding q_def by (rule half_bounds; simp)+
  have "h = w * p + (1 - w) * q"
    unfolding h_def w_def p_def q_def cos_diff cos_add by (simp add: field_simps)
  moreover have "0 \<le> w * p + (1 - w) * q" using w p q by simp
  moreover have "w * p + (1 - w) * q \<le> w * 1 + (1 - w) * 1"
    using w p q by (intro add_mono mult_left_mono) simp_all
  ultimately show ?thesis by simp
qed

lemma haversineDistance_argument:
  "0 \<le> haversineFunc (lat2 - lat1) +
         cos (degToRad lat1) * cos (degToRad lat2) * haversineFunc (lon2 - lon1) \<and>
   haversineFunc (lat2 - lat1) +
         cos (degToRad lat1) * cos (degToRad lat2) * haversineFunc (lon2 - lon1) \<le> 1"
proof -
  have d: "degToRad (lat2 - lat1) = degToRad lat2 - degToRad lat1"
    by (simp add: degToRad_def left_diff_distrib diff_divide_distrib)
  show ?thesis
    unfolding haversineFunc_def d
    by (rule haversineGcd_bounds [of "degToRad lat2" "degToRad lat1" "degToRad (lon2 - lon1)"])
qed

text \<open>Along the meridian through the origin the distance is the arc: the radius times
  the angle.\<close>

lemma haversine_meridian:
  assumes "0 \<le> t" "t \<le> 180"
  shows "haversineDistance 0 0 t 0 = 6371000 * (t * pi / 180)"
proof -
  define x where "x = degToRad t"
  have x0: "0 \<le> x / 2" using assms(1) pi_gt_zero by (simp add: x_def degToRad_def)
  have "t * pi \<le> 180 * pi" using assms(2) pi_gt_zero by simp
  then have x1: "x / 2 \<le> pi / 2" by (simp add: x_def degToRad_def)
  have h: "haversineFunc t = (sin (x / 2))\<^sup>2"
    using cos_double_sin [of "x / 2"] by (simp add: haversineFunc_def x_def)
  have s0: "0 \<le> sin (x / 2)" using x0 x1 pi_gt_zero by (intro sin_ge_zero) linarith+
  have "haversineFunc 0 = 0" by (simp add: haversineFunc_def degToRad_def)
  then have "haversineDistance 0 0 t 0 = 2 * 6371000 * arcsin (sqrt ((sin (x / 2))\<^sup>2))"
    by (simp add: haversineDistance_def h)
  also have "sqrt ((sin (x / 2))\<^sup>2) = sin (x / 2)" using s0 by simp
  also have "arcsin (sin (x / 2)) = x / 2" using x0 x1 by (intro arcsin_sin) linarith+
  finally show ?thesis by (simp add: x_def degToRad_def)
qed

lemma bearing_self: "bearingBetween lat lon lat lon = 0"
proof -
  have "atan2 0 0 = 0" by (simp add: atan2_def)
  moreover have "js_rem 360 360 = 0" by (simp add: js_rem_def js_trunc_def)
  ultimately show ?thesis
    by (simp add: bearingBetween_def degToRad_def)
qed

lemma bearing_range:
  "0 \<le> bearingBetween lat1 lon1 lat2 lon2 \<and> bearingBetween lat1 lon1 lat2 lon2 < 360"
proof -
  define y where "y = sin (degToRad (lon2 - lon1)) * cos (degToRad lat2)"
  define x where "x = cos (degToRad lat1) * sin (degToRad lat2) -
              sin (degToRad lat1) * cos (degToRad lat2) * cos (degToRad (lon2 - lon1))"
  have b: "bearingBetween lat1 lon1 lat2 lon2 = js_rem (atan2 y x * 180 / pi + 360) 360"
    by (simp add: bearingBetween_def Let_def x_def y_def)
  have "- pi \<le> atan2 y x" using atan2_range by blast
  then have "- 180 * pi \<le> atan2 y x * 180" by simp
  then have "- 180 \<le> atan2 y x * 180 / pi"
    using pi_gt_zero by (simp add: pos_le_divide_eq)
  then have "0 \<le> atan2 y x * 180 / pi + 360" by linarith
  then have "0 \<le> js_rem (atan2 y x * 180 / pi + 360) 360 \<and>
             js_rem (atan2 y x * 180 / pi + 360) 360 < 360"
    by (intro js_rem_nonneg) simp_all
  then show ?thesis unfolding b .
qed

text \<open>
  C7. For every coordinate, the distance from the point to itself is 0, and the bearing
  from the point to itself is the number 0: both arguments of the arctangent are 0
  there, and \<open>Math.atan2(0, 0)\<close> is 0.
\<close>

theorem equal_points_are_determinate:
  "haversineDistance lat lon lat lon = 0 \<and> bearingBetween lat lon lat lon = 0"
  using haversine_self [of lat lon] bearing_self [of lat lon] by simp

text \<open>
  C8. The distance is symmetric: exchanging the two coordinates gives the same number,
  so the two agree within a relative tolerance of one part in a million.
\<close>

theorem haversineDistance_symmetric:
  "haversineDistance lat1 lon1 lat2 lon2 = haversineDistance lat2 lon2 lat1 lon1 \<and>
   \<bar>haversineDistance lat1 lon1 lat2 lon2 - haversineDistance lat2 lon2 lat1 lon1\<bar>
     \<le> 1 / 10 ^ 6 * max \<bar>haversineDistance lat1 lon1 lat2 lon2\<bar>
                        \<bar>haversineDistance lat2 lon2 lat1 lon1\<bar>"
  using haversine_sym [of lat1 lon1 lat2 lon2] by simp

text \<open>
  C9. For all coordinates the bearing is at least 0 and strictly below 360.
\<close>

theorem bearingBetween_in_compass_range:
  "0 \<le> bearingBetween lat1 lon1 lat2 lon2 \<and> bearingBetween lat1 lon1 lat2 lon2 < 360"
  by (rule bearing_range)

text \<open>One degree of latitude is far more than the refresh threshold, and any distance
  up to a kilometre is realised on the meridian through the origin.\<close>

lemma one_degree_is_far: "250 \<le> haversineDistance 0 0 1 0 \<and> 0 < haversineDistance 0 0 1 0"
proof -
  have "haversineDistance 0 0 1 0 = 6371000 * (1 * pi / 180)"
    by (rule haversine_meridian) simp_all
  moreover have "2 \<le> pi" by (rule pi_ge_two)
  ultimately show ?thesis by simp
qed

lemma metres_on_meridian:
  assumes "0 \<le> m" "m \<le> 1000"
  shows "haversineDistance 0 0 (m * 180 / (6371000 * pi)) 0 = m"
proof -
  have p: "2 \<le> pi" by (rule pi_ge_two)
  have a: "0 \<le> m * 180 / (6371000 * pi)" using assms(1) by simp
  have "m * 180 \<le> 180 * (6371000 * pi)" using assms(2) p by simp
  then have b: "m * 180 / (6371000 * pi) \<le> 180" by (simp add: pos_divide_le_eq)
  show ?thesis unfolding haversine_meridian [OF a b] by simp
qed

section \<open>The rotation of the compass\<close>

lemma shortRelBearing_range:
  "- 180 \<le> shortRelBearing b h \<and> shortRelBearing b h < 180"
proof -
  define r1 where "r1 = js_rem (b - h + 360) 360"
  have r1: "- 360 < r1 \<and> r1 < 360"
  proof (cases "b - h + 360 < 0")
    case True
    then show ?thesis unfolding r1_def using js_rem_neg [of "b - h + 360" 360] by simp
  next
    case False
    then show ?thesis unfolding r1_def using js_rem_nonneg [of "b - h + 360" 360] by simp
  qed
  then have "0 \<le> r1 + 540" by simp
  then have "0 \<le> js_rem (r1 + 540) 360 \<and> js_rem (r1 + 540) 360 < 360"
    by (intro js_rem_nonneg) simp_all
  then show ?thesis by (simp add: shortRelBearing_def r1_def Let_def)
qed

lemma shortRelBearing_congruent:
  "\<exists>k::int. shortRelBearing b h = b - h + 360 * of_int k"
proof -
  define r1 where "r1 = js_rem (b - h + 360) 360"
  define r2 where "r2 = js_rem (r1 + 540) 360"
  obtain k1 :: int where k1: "r1 = (b - h + 360) - 360 * of_int k1"
    unfolding r1_def using js_rem_congruent by blast
  obtain k2 :: int where k2: "r2 = (r1 + 540) - 360 * of_int k2"
    unfolding r2_def using js_rem_congruent by blast
  have "shortRelBearing b h = r2 - 180"
    by (simp add: shortRelBearing_def Let_def r1_def r2_def)
  also have "\<dots> = b - h + 360 * of_int (2 - k1 - k2)"
    unfolding k2 k1 by simp
  finally show ?thesis by blast
qed

text \<open>Where \<open>updateBearingUI\<close> gets past its guard, the rotation it writes is
  \<open>shortRelBearing\<close> of the bearing to the resolved pub and of the current heading.\<close>

lemma updateBearingUI_rotation:
  assumes "currentLocation s = Some loc" "nearbyPubs s = Some pubs" "pubs \<noteq> []"
    and "selectedPub loc pubs (selectedPubId s) = Some p"
  shows "rotation (updateBearingUI s) =
           Some (shortRelBearing
                   (bearingBetween (latitude loc) (longitude loc) (latitude p) (longitude p))
                   (toNumber (currentHeading s)))"
  using assms by (simp add: updateBearingUI_def)

text \<open>
  C1, as the code has it. For every target bearing and every heading, the rotation is
  the difference target minus heading brought into the interval from -180 to 180 that
  is closed on the left and open on the right: it is at least -180, strictly below 180,
  and differs from target minus heading by a whole number of turns.
\<close>

theorem relative_bearing_normalised:
  "- 180 \<le> shortRelBearing bearing heading \<and> shortRelBearing bearing heading < 180 \<and>
   (\<exists>k::int. shortRelBearing bearing heading = bearing - heading + 360 * of_int k)"
  using shortRelBearing_range [of bearing heading] shortRelBearing_congruent [of bearing heading]
  by simp

section \<open>The distance string\<close>





















section \<open>Target resolution\<close>

lemma toSorted_Cons: "toSorted cmp (x # xs) = insertSorted cmp x (toSorted cmp xs)"
  by (simp add: toSorted_def)

lemma toSorted_Nil: "toSorted cmp [] = []"
  by (simp add: toSorted_def)

lemma insertSorted_nonempty: "insertSorted cmp x ys \<noteq> []"
  by (cases ys) simp_all

lemma toSorted_nonempty: "xs \<noteq> [] \<Longrightarrow> toSorted cmp xs \<noteq> []"
  by (cases xs) (simp_all add: toSorted_Cons insertSorted_nonempty)

lemma hd_insertSorted:
  "hd (insertSorted cmp x ys) = (if ys = [] \<or> cmp x (hd ys) \<le> 0 then x else hd ys)"
  by (cases ys) simp_all

text \<open>The sort keeps what it is given: the same elements, each as often as before, so
  the stored candidates are shown completely.\<close>

lemma set_insertSorted: "set (insertSorted cmp x ys) = insert x (set ys)"
  by (induction ys) auto

lemma set_toSorted: "set (toSorted cmp xs) = set xs"
  by (induction xs) (simp_all add: toSorted_Nil toSorted_Cons set_insertSorted)

lemma length_insertSorted: "length (insertSorted cmp x ys) = Suc (length ys)"
  by (induction ys) auto

lemma length_toSorted: "length (toSorted cmp xs) = length xs"
  by (induction xs) (simp_all add: toSorted_Nil toSorted_Cons length_insertSorted)

text \<open>The head of the sorted list is the first element of the input with the least
  key, when the comparator is the difference of the keys.\<close>

lemma hd_toSorted_first_minimum:
  assumes "xs \<noteq> []" and cmp: "\<And>x y. cmp x y = key x - key y"
  shows "\<exists>i<length xs. hd (toSorted cmp xs) = xs ! i \<and>
           (\<forall>j<length xs. key (xs ! i) \<le> key (xs ! j)) \<and>
           (\<forall>j<i. key (xs ! i) < key (xs ! j))"
  using assms(1)
proof (induction xs)
  case Nil
  then show ?case by simp
next
  case (Cons x xs)
  show ?case
  proof (cases "xs = []")
    case True
    then show ?thesis by (simp add: toSorted_Cons toSorted_Nil)
  next
    case False
    from Cons.IH [OF False] obtain i where i: "i < length xs"
      and hd: "hd (toSorted cmp xs) = xs ! i"
      and least: "\<forall>j<length xs. key (xs ! i) \<le> key (xs ! j)"
      and first: "\<forall>j<i. key (xs ! i) < key (xs ! j)"
      by blast
    have ne: "toSorted cmp xs \<noteq> []" by (rule toSorted_nonempty [OF False])
    show ?thesis
    proof (cases "key x \<le> key (xs ! i)")
      case True
      then have h: "hd (toSorted cmp (x # xs)) = (x # xs) ! 0"
        by (simp add: toSorted_Cons hd_insertSorted ne hd cmp)
      have "\<forall>j<length (x # xs). key ((x # xs) ! 0) \<le> key ((x # xs) ! j)"
      proof (intro allI impI)
        fix j assume "j < length (x # xs)"
        then show "key ((x # xs) ! 0) \<le> key ((x # xs) ! j)"
          using True least by (cases j) (auto intro: order_trans)
      qed
      with h show ?thesis by (intro exI [of _ 0]) simp
    next
      case False
      then have lt: "key (xs ! i) < key x" by simp
      then have h: "hd (toSorted cmp (x # xs)) = (x # xs) ! Suc i"
        by (simp add: toSorted_Cons hd_insertSorted ne hd cmp)
      have a: "\<forall>j<length (x # xs). key ((x # xs) ! Suc i) \<le> key ((x # xs) ! j)"
      proof (intro allI impI)
        fix j assume "j < length (x # xs)"
        then show "key ((x # xs) ! Suc i) \<le> key ((x # xs) ! j)"
          using lt least by (cases j) auto
      qed
      have b: "\<forall>j<Suc i. key ((x # xs) ! Suc i) < key ((x # xs) ! j)"
      proof (intro allI impI)
        fix j assume "j < Suc i"
        then show "key ((x # xs) ! Suc i) < key ((x # xs) ! j)"
          using lt first by (cases j) auto
      qed
      from i h a b show ?thesis by (intro exI [of _ "Suc i"]) simp
    qed
  qed
qed

lemma distanceSort_difference:
  "distanceSort loc p q = distanceFrom loc p - distanceFrom loc q"
  by (simp add: distanceSort_def)

lemma selectedPub_nearest:
  assumes "pubs \<noteq> []" and "\<not> truthy sel \<or> find (\<lambda>p. pub_id p = sel) pubs = None"
  shows "\<exists>i<length pubs. selectedPub loc pubs sel = Some (pubs ! i) \<and>
           (\<forall>j<length pubs. distanceFrom loc (pubs ! i) \<le> distanceFrom loc (pubs ! j)) \<and>
           (\<forall>j<i. distanceFrom loc (pubs ! i) < distanceFrom loc (pubs ! j))"
proof -
  have ne: "toSorted (distanceSort loc) pubs \<noteq> []" by (rule toSorted_nonempty [OF assms(1)])
  have "(if truthy sel then find (\<lambda>p. pub_id p = sel) pubs else None) = None"
    using assms(2) by auto
  then have "selectedPub loc pubs sel = Some (hd (toSorted (distanceSort loc) pubs))"
    using ne by (simp add: selectedPub_def split: list.splits)
  with hd_toSorted_first_minimum [OF assms(1), of "distanceSort loc" "distanceFrom loc"]
  show ?thesis by (simp add: distanceSort_difference)
qed

lemma selectedPub_sticky:
  assumes "truthy sel" and "\<exists>p\<in>set pubs. pub_id p = sel"
  shows "\<exists>i<length pubs. selectedPub loc pubs sel = Some (pubs ! i) \<and> pub_id (pubs ! i) = sel \<and>
           (\<forall>j<i. pub_id (pubs ! j) \<noteq> sel)"
proof -
  from assms(2) have "find (\<lambda>p. pub_id p = sel) pubs \<noteq> None"
    by (auto simp: find_None_iff)
  then obtain p where p: "find (\<lambda>p. pub_id p = sel) pubs = Some p" by blast
  then have "selectedPub loc pubs sel = Some p"
    using assms(1) by (simp add: selectedPub_def)
  with p show ?thesis by (auto simp: find_Some_iff)
qed

lemma selectedPub_defined:
  assumes "pubs \<noteq> []"
  shows "selectedPub loc pubs sel \<noteq> None"
  using toSorted_nonempty [OF assms, of "distanceSort loc"]
  by (simp add: selectedPub_def split: option.splits list.splits)

text \<open>Of two candidates, the one resolved is the second when the first is excluded.\<close>

lemma second_of_two:
  assumes "\<exists>i<length [a, b]. r = Some ([a, b] ! i) \<and> Q i" and "\<not> Q 0"
  shows "r = Some b"
proof -
  obtain i where i: "i < length [a, b]" "r = Some ([a, b] ! i)" "Q i"
    using assms(1) by blast
  from i(1) have "i = 0 \<or> i = 1" by auto
  with assms(2) i(3) have "i = 1" by auto
  with i(2) show ?thesis by simp
qed

text \<open>
  C4, as the code has it. For every non-empty candidate set, every origin and every
  selection: when the selection is a truthy value and some member has it as its id,
  the result is the first such member, whatever the distances; in every other case
  (the selection is \<open>null\<close> or another falsy value, or no member has that id, as after
  the set was replaced by one lacking it) the result is a member at minimum distance
  from the origin, and the first of those in the order of the set.
\<close>

theorem target_resolution:
  assumes "pubs \<noteq> []"
  shows "(truthy sel \<and> (\<exists>p\<in>set pubs. pub_id p = sel) \<longrightarrow>
            (\<exists>i<length pubs. selectedPub loc pubs sel = Some (pubs ! i) \<and>
               pub_id (pubs ! i) = sel \<and> (\<forall>j<i. pub_id (pubs ! j) \<noteq> sel))) \<and>
         (\<not> (truthy sel \<and> (\<exists>p\<in>set pubs. pub_id p = sel)) \<longrightarrow>
            (\<exists>i<length pubs. selectedPub loc pubs sel = Some (pubs ! i) \<and>
               (\<forall>j<length pubs. distanceFrom loc (pubs ! i) \<le> distanceFrom loc (pubs ! j)) \<and>
               (\<forall>j<i. distanceFrom loc (pubs ! i) < distanceFrom loc (pubs ! j))))"
proof (intro conjI impI)
  assume "truthy sel \<and> (\<exists>p\<in>set pubs. pub_id p = sel)"
  then show "\<exists>i<length pubs. selectedPub loc pubs sel = Some (pubs ! i) \<and>
               pub_id (pubs ! i) = sel \<and> (\<forall>j<i. pub_id (pubs ! j) \<noteq> sel)"
    using selectedPub_sticky [of sel pubs loc] by blast
next
  assume "\<not> (truthy sel \<and> (\<exists>p\<in>set pubs. pub_id p = sel))"
  then have "\<not> truthy sel \<or> find (\<lambda>p. pub_id p = sel) pubs = None"
    by (auto simp: find_None_iff)
  then show "\<exists>i<length pubs. selectedPub loc pubs sel = Some (pubs ! i) \<and>
               (\<forall>j<length pubs. distanceFrom loc (pubs ! i) \<le> distanceFrom loc (pubs ! j)) \<and>
               (\<forall>j<i. distanceFrom loc (pubs ! i) < distanceFrom loc (pubs ! j))"
    by (rule selectedPub_nearest [OF assms])
qed

text \<open>With the origin at (0, 0), a pub there and a pub one degree north: selecting the
  far pub's id resolves to the far pub, and a selection that no pub has resolves to the
  near one, also when it comes second in the set.\<close>

theorem target_resolution_witness:
  "selectedPub \<lparr>latitude = 0, longitude = 0\<rparr>
     [\<lparr>latitude = 0, longitude = 0, name = Some ''Near'', pub_id = IdNum 1\<rparr>,
      \<lparr>latitude = 1, longitude = 0, name = None, pub_id = IdNum 2\<rparr>] (IdNum 2) =
     Some \<lparr>latitude = 1, longitude = 0, name = None, pub_id = IdNum 2\<rparr> \<and>
   selectedPub \<lparr>latitude = 0, longitude = 0\<rparr>
     [\<lparr>latitude = 1, longitude = 0, name = None, pub_id = IdNum 2\<rparr>,
      \<lparr>latitude = 0, longitude = 0, name = Some ''Near'', pub_id = IdNum 1\<rparr>] (IdNum 3) =
     Some \<lparr>latitude = 0, longitude = 0, name = Some ''Near'', pub_id = IdNum 1\<rparr>"
proof -
  let ?o = "\<lparr>latitude = 0, longitude = 0\<rparr>"
  let ?a = "\<lparr>latitude = 0, longitude = 0, name = Some ''Near'', pub_id = IdNum 1\<rparr>"
  let ?b = "\<lparr>latitude = 1, longitude = 0, name = None, pub_id = IdNum 2\<rparr>"
  have far: "0 < haversineDistance 0 0 1 0" using one_degree_is_far by simp
  have ne: "[?a, ?b] \<noteq> []" "[?b, ?a] \<noteq> []" by simp_all
  have h1: "truthy (IdNum 2) \<and> (\<exists>p\<in>set [?a, ?b]. pub_id p = IdNum 2)" by simp
  have h2: "\<not> (truthy (IdNum 3) \<and> (\<exists>p\<in>set [?b, ?a]. pub_id p = IdNum 3))" by simp
  note sticky = target_resolution [OF ne(1), of "IdNum 2" ?o, THEN conjunct1, THEN mp, OF h1]
  note nearest = target_resolution [OF ne(2), of "IdNum 3" ?o, THEN conjunct2, THEN mp, OF h2]
  have 1: "selectedPub ?o [?a, ?b] (IdNum 2) = Some ?b"
    by (rule second_of_two [OF sticky]) simp
  have 2: "selectedPub ?o [?b, ?a] (IdNum 3) = Some ?a"
  proof (rule second_of_two [OF nearest], rule notI, elim conjE)
    assume "\<forall>j<length [?b, ?a]. distanceFrom ?o ([?b, ?a] ! 0) \<le> distanceFrom ?o ([?b, ?a] ! j)"
    moreover have "1 < length [?b, ?a]" by simp
    ultimately have "distanceFrom ?o ([?b, ?a] ! 0) \<le> distanceFrom ?o ([?b, ?a] ! 1)" by blast
    with far show False by (simp add: haversine_self)
  qed
  from 1 2 show ?thesis by blast
qed

text \<open>
  C4 as stated fails for a falsy selection: with the selection 0 and a member whose id
  is 0 one degree away, the result is the nearer member with id 1, not the member
  whose id equals the selection.
\<close>

theorem target_resolution_counterexample:
  "pub_id \<lparr>latitude = 1, longitude = 0, name = None, pub_id = IdNum 0\<rparr> = IdNum 0 \<and>
   selectedPub \<lparr>latitude = 0, longitude = 0\<rparr>
     [\<lparr>latitude = 0, longitude = 0, name = None, pub_id = IdNum 1\<rparr>,
      \<lparr>latitude = 1, longitude = 0, name = None, pub_id = IdNum 0\<rparr>] (IdNum 0) =
     Some \<lparr>latitude = 0, longitude = 0, name = None, pub_id = IdNum 1\<rparr> \<and>
   selectedPub \<lparr>latitude = 0, longitude = 0\<rparr>
     [\<lparr>latitude = 0, longitude = 0, name = None, pub_id = IdNum 1\<rparr>,
      \<lparr>latitude = 1, longitude = 0, name = None, pub_id = IdNum 0\<rparr>] (IdNum 0) \<noteq>
     Some \<lparr>latitude = 1, longitude = 0, name = None, pub_id = IdNum 0\<rparr>"
  using one_degree_is_far
  by (simp add: selectedPub_def toSorted_def distanceSort_def haversine_self)

text \<open>
  C10. When the stored selection is falsy (\<open>null\<close>, \<open>undefined\<close>, \<open>false\<close>, the number
  0 or the empty string; 0 and the empty string are falsy), the lookup by id is
  skipped: the result is the same as with no selection at all, and it is the first
  member at minimum distance from the origin, whether or not some member has that id.
\<close>

theorem falsy_selection_is_ignored:
  assumes "\<not> truthy sel" and "pubs \<noteq> []"
  shows "selectedPub loc pubs sel = selectedPub loc pubs IdNull \<and>
         (\<exists>i<length pubs. selectedPub loc pubs sel = Some (pubs ! i) \<and>
            (\<forall>j<length pubs. distanceFrom loc (pubs ! i) \<le> distanceFrom loc (pubs ! j)) \<and>
            (\<forall>j<i. distanceFrom loc (pubs ! i) < distanceFrom loc (pubs ! j))) \<and>
         \<not> truthy (IdNum 0) \<and> \<not> truthy (IdStr '''')"
proof -
  have "selectedPub loc pubs sel = selectedPub loc pubs IdNull"
    using assms(1) by (simp add: selectedPub_def)
  moreover have "\<exists>i<length pubs. selectedPub loc pubs sel = Some (pubs ! i) \<and>
            (\<forall>j<length pubs. distanceFrom loc (pubs ! i) \<le> distanceFrom loc (pubs ! j)) \<and>
            (\<forall>j<i. distanceFrom loc (pubs ! i) < distanceFrom loc (pubs ! j))"
    using assms by (intro selectedPub_nearest) simp_all
  ultimately show ?thesis by simp
qed

text \<open>The selection is the empty string, the far pub has the empty string as its id,
  and the near pub is resolved.\<close>

theorem falsy_selection_is_ignored_witness:
  "selectedPub \<lparr>latitude = 0, longitude = 0\<rparr>
     [\<lparr>latitude = 1, longitude = 0, name = Some ''Far'', pub_id = IdStr ''''\<rparr>,
      \<lparr>latitude = 0, longitude = 0, name = Some ''Near'', pub_id = IdNum 5\<rparr>] (IdStr '''') =
     Some \<lparr>latitude = 0, longitude = 0, name = Some ''Near'', pub_id = IdNum 5\<rparr>"
proof -
  let ?o = "\<lparr>latitude = 0, longitude = 0\<rparr>"
  let ?a = "\<lparr>latitude = 0, longitude = 0, name = Some ''Near'', pub_id = IdNum 5\<rparr>"
  let ?b = "\<lparr>latitude = 1, longitude = 0, name = Some ''Far'', pub_id = IdStr ''''\<rparr>"
  have far: "0 < haversineDistance 0 0 1 0" using one_degree_is_far by simp
  have ne: "[?b, ?a] \<noteq> []" by simp
  have f: "\<not> truthy (IdStr '''')" by simp
  note nearest = falsy_selection_is_ignored [OF f ne, of ?o, THEN conjunct2, THEN conjunct1]
  show ?thesis
  proof (rule second_of_two [OF nearest], rule notI, elim conjE)
    assume "\<forall>j<length [?b, ?a]. distanceFrom ?o ([?b, ?a] ! 0) \<le> distanceFrom ?o ([?b, ?a] ! j)"
    moreover have "1 < length [?b, ?a]" by simp
    ultimately have "distanceFrom ?o ([?b, ?a] ! 0) \<le> distanceFrom ?o ([?b, ?a] ! 1)" by blast
    with far show False by (simp add: haversine_self)
  qed
qed

section \<open>The event handlers: what they keep and what they change\<close>

lemma updateBearingUI_fields [simp]:
  "currentLocation (updateBearingUI s) = currentLocation s"
  "currentHeading (updateBearingUI s) = currentHeading s"
  "nearbyPubs (updateBearingUI s) = nearbyPubs s"
  "selectedPubId (updateBearingUI s) = selectedPubId s"
  "pendingFetch (updateBearingUI s) = pendingFetch s"
  "fetchesInFlight (updateBearingUI s) = fetchesInFlight s"
  "status (updateBearingUI s) = status s"
  by (simp_all add: updateBearingUI_def Let_def split: option.splits)

lemma updateUI_fields [simp]:
  "currentLocation (updateUI s) = currentLocation s"
  "currentHeading (updateUI s) = currentHeading s"
  "nearbyPubs (updateUI s) = nearbyPubs s"
  "selectedPubId (updateUI s) = selectedPubId s"
  "pendingFetch (updateUI s) = pendingFetch s"
  "fetchesInFlight (updateUI s) = fetchesInFlight s"
  by (simp_all add: updateUI_def clearStatus_def Let_def split: option.splits)

lemma updateUI_no_candidates:
  "nearbyPubs s = None \<or> nearbyPubs s = Some [] \<Longrightarrow> updateUI s = s"
  by (auto simp: updateUI_def split: option.splits)

lemma setCoords_fields [simp]:
  "currentLocation (setCoords c s) = Some c"
  "nearbyPubs (setCoords c s) = nearbyPubs s"
  "selectedPubId (setCoords c s) = selectedPubId s"
  by (simp_all add: setCoords_def fetchNearbyPubs_begin_def setStatus_def Let_def)

lemma setCoords_fetch:
  "fetchesInFlight (setCoords c s) =
     (if \<not> pendingFetch s \<and>
         (case currentLocation s of
            None \<Rightarrow> True
          | Some old \<Rightarrow>
              250 \<le> haversineDistance (latitude c) (longitude c) (latitude old) (longitude old))
      then Suc (fetchesInFlight s) else fetchesInFlight s)"
  "pendingFetch (setCoords c s) =
     (pendingFetch s \<or>
         (case currentLocation s of
            None \<Rightarrow> True
          | Some old \<Rightarrow>
              250 \<le> haversineDistance (latitude c) (longitude c) (latitude old) (longitude old)))"
  by (auto simp: setCoords_def fetchNearbyPubs_begin_def setStatus_def Let_def not_less
      split: option.splits)

lemma resume_fields [simp]:
  "currentLocation (snd (fetchNearbyPubs_resume out s)) = currentLocation s"
  "selectedPubId (snd (fetchNearbyPubs_resume out s)) = selectedPubId s"
  "pendingFetch (snd (fetchNearbyPubs_resume out s)) = pendingFetch s"
  "fetchesInFlight (snd (fetchNearbyPubs_resume out s)) = fetchesInFlight s"
  by (simp_all add: fetchNearbyPubs_resume_def setStatus_def
      split: outcome.splits payload.splits option.splits)

lemma fetchSettled_fields [simp]:
  "currentLocation (fetchSettled out s) = currentLocation s"
  "selectedPubId (fetchSettled out s) = selectedPubId s"
  "pendingFetch (fetchSettled out s) = False"
  "fetchesInFlight (fetchSettled out s) = fetchesInFlight s - 1"
  by (simp_all add: fetchSettled_def Let_def)

lemma setHeading_fields [simp]:
  "currentLocation (setHeading a s) = currentLocation s"
  "nearbyPubs (setHeading a s) = nearbyPubs s"
  "selectedPubId (setHeading a s) = selectedPubId s"
  "pendingFetch (setHeading a s) = pendingFetch s"
  "fetchesInFlight (setHeading a s) = fetchesInFlight s"
  "status (setHeading a s) = status s"
  by (simp_all add: setHeading_def)

lemma selectPub_fields [simp]:
  "currentLocation (selectPub i s) = currentLocation s"
  "nearbyPubs (selectPub i s) = nearbyPubs s"
  "selectedPubId (selectPub i s) = i"
  "pendingFetch (selectPub i s) = pendingFetch s"
  "fetchesInFlight (selectPub i s) = fetchesInFlight s"
  by (simp_all add: selectPub_def)

text \<open>In every reachable state the flag is set exactly when one fetch has not settled,
  and never before the first fix.\<close>

lemma reachable_invariant:
  assumes "reachable s"
  shows "fetchesInFlight s = (if pendingFetch s then 1 else 0) \<and>
         (pendingFetch s \<longrightarrow> currentLocation s \<noteq> None)"
  using assms
proof (induction rule: reachable.induct)
  case start
  then show ?case by (simp add: initial_def)
next
  case (step s e)
  then show ?case
    by (cases e) (auto simp: setCoords_fetch split: option.splits)
qed

lemma first_fix:
  "setCoords c initial =
      initial\<lparr>currentLocation := Some c, status := Some (Info, ''Fetching nearby pubs''),
               pendingFetch := True, fetchesInFlight := Suc 0\<rparr>"
proof -
  have u: "updateUI (initial\<lparr>currentLocation := Some c\<rparr>) = initial\<lparr>currentLocation := Some c\<rparr>"
    by (rule updateUI_no_candidates) (simp add: initial_def)
  show ?thesis
    unfolding setCoords_def Let_def u
    by (simp add: initial_def fetchNearbyPubs_begin_def setStatus_def)
qed

lemma reachable_first_fix: "reachable (setCoords c initial)"
  using reachable.step [OF reachable.start, of "PositionEvent c"] by simp

lemma reachable_first_fetch_settled: "reachable (fetchSettled out (setCoords c initial))"
  using reachable.step [OF reachable_first_fix, of "FetchSettled out" c]
  by (simp add: first_fix)

section \<open>The refresh policy\<close>

text \<open>
  C5, as the code has it. On a location update a fetch is started exactly when no
  fetch is in flight and the previous coordinate is absent or at least 250 m away. So
  the first fix of a run always starts one, the same coordinate again never does, a
  move of 300 m does when none is in flight, and a move of 100 m never does.
\<close>

theorem refresh_policy:
  "fetchesInFlight (setCoords c s) =
     (if \<not> pendingFetch s \<and>
         (case currentLocation s of
            None \<Rightarrow> True
          | Some old \<Rightarrow>
              250 \<le> haversineDistance (latitude c) (longitude c) (latitude old) (longitude old))
      then Suc (fetchesInFlight s) else fetchesInFlight s) \<and>
   (reachable s \<and> currentLocation s = None \<longrightarrow>
      fetchesInFlight (setCoords c s) = Suc (fetchesInFlight s)) \<and>
   (currentLocation s = Some c \<longrightarrow> fetchesInFlight (setCoords c s) = fetchesInFlight s) \<and>
   (\<not> pendingFetch s \<and> currentLocation s = Some old \<and>
      haversineDistance (latitude c) (longitude c) (latitude old) (longitude old) = 300 \<longrightarrow>
      fetchesInFlight (setCoords c s) = Suc (fetchesInFlight s)) \<and>
   (currentLocation s = Some old \<and>
      haversineDistance (latitude c) (longitude c) (latitude old) (longitude old) = 100 \<longrightarrow>
      fetchesInFlight (setCoords c s) = fetchesInFlight s)"
proof -
  have first: "reachable s \<Longrightarrow> currentLocation s = None \<Longrightarrow> \<not> pendingFetch s"
    using reachable_invariant [of s] by auto
  show ?thesis
    using first by (auto simp: setCoords_fetch haversine_self)
qed

text \<open>The first fix starts a fetch. Once it has settled, the same coordinate starts
  none, a coordinate 300 m away starts one, and a coordinate 100 m away starts none.\<close>

theorem refresh_policy_witness:
  "fetchesInFlight (setCoords \<lparr>latitude = 0, longitude = 0\<rparr> initial) =
     Suc (fetchesInFlight initial) \<and>
   fetchesInFlight (setCoords \<lparr>latitude = 0, longitude = 0\<rparr>
      (fetchSettled NetworkError (setCoords \<lparr>latitude = 0, longitude = 0\<rparr> initial))) = 0 \<and>
   fetchesInFlight (setCoords \<lparr>latitude = 0, longitude = 0\<rparr>
      (fetchSettled NetworkError
         (setCoords \<lparr>latitude = 300 * 180 / (6371000 * pi), longitude = 0\<rparr> initial))) = 1 \<and>
   fetchesInFlight (setCoords \<lparr>latitude = 0, longitude = 0\<rparr>
      (fetchSettled NetworkError
         (setCoords \<lparr>latitude = 100 * 180 / (6371000 * pi), longitude = 0\<rparr> initial))) = 0"
proof -
  let ?o = "\<lparr>latitude = 0, longitude = 0\<rparr>"
  let ?a = "\<lparr>latitude = 300 * 180 / (6371000 * pi), longitude = 0\<rparr>"
  let ?b = "\<lparr>latitude = 100 * 180 / (6371000 * pi), longitude = 0\<rparr>"
  let ?s = "\<lambda>c. fetchSettled NetworkError (setCoords c initial)"
  have d300: "haversineDistance 0 0 (300 * 180 / (6371000 * pi)) 0 = 300"
    by (rule metres_on_meridian) simp_all
  have d100: "haversineDistance 0 0 (100 * 180 / (6371000 * pi)) 0 = 100"
    by (rule metres_on_meridian) simp_all
  have "currentLocation initial = None" by (simp add: initial_def)
  then have i: "reachable initial \<and> currentLocation initial = None"
    using reachable.start by simp
  have 1: "fetchesInFlight (setCoords ?o initial) = Suc (fetchesInFlight initial)"
    using refresh_policy [of ?o initial] i by blast
  have s: "\<And>c. currentLocation (?s c) = Some c"
    "\<And>c. \<not> pendingFetch (?s c)"
    "\<And>c. fetchesInFlight (?s c) = 0"
    by (simp_all add: first_fix)
  have "currentLocation (?s ?o) = Some ?o \<longrightarrow>
          fetchesInFlight (setCoords ?o (?s ?o)) = fetchesInFlight (?s ?o)"
    using refresh_policy [of ?o "?s ?o"] by blast
  then have 2: "fetchesInFlight (setCoords ?o (?s ?o)) = 0"
    using s by simp
  have "\<not> pendingFetch (?s ?a) \<and> currentLocation (?s ?a) = Some ?a \<and>
          haversineDistance (latitude ?o) (longitude ?o) (latitude ?a) (longitude ?a) = 300 \<longrightarrow>
          fetchesInFlight (setCoords ?o (?s ?a)) = Suc (fetchesInFlight (?s ?a))"
    using refresh_policy [of ?o "?s ?a" ?a] by blast
  then have 3: "fetchesInFlight (setCoords ?o (?s ?a)) = 1"
    using s d300 by simp
  have "currentLocation (?s ?b) = Some ?b \<and>
          haversineDistance (latitude ?o) (longitude ?o) (latitude ?b) (longitude ?b) = 100 \<longrightarrow>
          fetchesInFlight (setCoords ?o (?s ?b)) = fetchesInFlight (?s ?b)"
    using refresh_policy [of ?o "?s ?b" ?b] by blast
  then have 4: "fetchesInFlight (setCoords ?o (?s ?b)) = 0"
    using s d100 by simp
  from 1 2 3 4 show ?thesis by blast
qed

text \<open>
  C5 as stated fails while a fetch is in flight: after the first fix one degree north
  of the origin, whose fetch has not settled, an update at the origin is more than
  250 m from the previous coordinate and starts no fetch.
\<close>

theorem refresh_policy_counterexample:
  "reachable (setCoords \<lparr>latitude = 1, longitude = 0\<rparr> initial) \<and>
   currentLocation (setCoords \<lparr>latitude = 1, longitude = 0\<rparr> initial) =
     Some \<lparr>latitude = 1, longitude = 0\<rparr> \<and>
   250 \<le> haversineDistance 0 0 1 0 \<and>
   fetchesInFlight (setCoords \<lparr>latitude = 0, longitude = 0\<rparr>
       (setCoords \<lparr>latitude = 1, longitude = 0\<rparr> initial)) =
     fetchesInFlight (setCoords \<lparr>latitude = 1, longitude = 0\<rparr> initial)"
proof -
  let ?n = "\<lparr>latitude = 1, longitude = 0\<rparr>"
  have p: "pendingFetch (setCoords ?n initial)" by (simp add: first_fix)
  have "fetchesInFlight (setCoords \<lparr>latitude = 0, longitude = 0\<rparr> (setCoords ?n initial)) =
     fetchesInFlight (setCoords ?n initial)"
    using p by (simp add: setCoords_fetch(1) [of _ "setCoords ?n initial"])
  then show ?thesis
    using one_degree_is_far reachable_first_fix [of ?n] by simp
qed

section \<open>At most one fetch in flight\<close>

text \<open>
  C6. In every reachable state at most one fetch is in flight, and the flag is set
  exactly when one is. While the flag is set, a location update starts no fetch and
  leaves the flag set. When the fetch settles, whatever the outcome, the flag is
  cleared and nothing is in flight (the dropped request was not queued), and a later
  update at least 250 m from the previous coordinate starts a new fetch.
\<close>

theorem at_most_one_fetch_in_flight:
  assumes "reachable s"
  shows "fetchesInFlight s \<le> 1 \<and>
         pendingFetch s = (fetchesInFlight s = 1) \<and>
         (pendingFetch s \<longrightarrow>
            fetchesInFlight (setCoords c s) = fetchesInFlight s \<and> pendingFetch (setCoords c s)) \<and>
         (0 < fetchesInFlight s \<longrightarrow>
            \<not> pendingFetch (fetchSettled out s) \<and> fetchesInFlight (fetchSettled out s) = 0 \<and>
            (\<forall>old. currentLocation s = Some old \<and>
                   250 \<le> haversineDistance (latitude c) (longitude c)
                            (latitude old) (longitude old) \<longrightarrow>
               pendingFetch (setCoords c (fetchSettled out s)) \<and>
               fetchesInFlight (setCoords c (fetchSettled out s)) = 1))"
proof -
  have inv: "fetchesInFlight s = (if pendingFetch s then 1 else 0)"
    using reachable_invariant [OF assms] by simp
  show ?thesis
    using inv by (auto simp: setCoords_fetch split: if_splits)
qed

text \<open>After the first fix one degree north of the origin: one fetch is in flight; an
  update at the origin starts no second one; an HTTP 500 clears the flag; the next
  update at the origin starts a fetch again.\<close>

theorem at_most_one_fetch_in_flight_witness:
  "reachable (setCoords \<lparr>latitude = 1, longitude = 0\<rparr> initial) \<and>
   fetchesInFlight (setCoords \<lparr>latitude = 1, longitude = 0\<rparr> initial) \<le> 1 \<and>
   pendingFetch (setCoords \<lparr>latitude = 1, longitude = 0\<rparr> initial) \<and>
   fetchesInFlight (setCoords \<lparr>latitude = 0, longitude = 0\<rparr>
      (setCoords \<lparr>latitude = 1, longitude = 0\<rparr> initial)) = 1 \<and>
   \<not> pendingFetch (fetchSettled (Response 500 NotJson)
      (setCoords \<lparr>latitude = 1, longitude = 0\<rparr> initial)) \<and>
   fetchesInFlight (fetchSettled (Response 500 NotJson)
      (setCoords \<lparr>latitude = 1, longitude = 0\<rparr> initial)) = 0 \<and>
   fetchesInFlight (setCoords \<lparr>latitude = 0, longitude = 0\<rparr>
      (fetchSettled (Response 500 NotJson)
         (setCoords \<lparr>latitude = 1, longitude = 0\<rparr> initial))) = 1"
proof -
  let ?n = "\<lparr>latitude = 1, longitude = 0\<rparr>"
  let ?o = "\<lparr>latitude = 0, longitude = 0\<rparr>"
  have r: "reachable (setCoords ?n initial)" by (rule reachable_first_fix)
  have f: "fetchesInFlight (setCoords ?n initial) = 1"
    "currentLocation (setCoords ?n initial) = Some ?n"
    by (simp_all add: first_fix)
  have far: "250 \<le> haversineDistance (latitude ?o) (longitude ?o) (latitude ?n) (longitude ?n)"
    using one_degree_is_far by simp
  show ?thesis
    using at_most_one_fetch_in_flight [OF r, of ?o "Response 500 NotJson"] r f far
    by simp
qed

section \<open>Failing and succeeding fetches\<close>

text \<open>Whenever the fetch fails (the request fails, the status is not 2xx, the body is
  not JSON, \<open>elements\<close> is not an array, or an element has no tags) the candidates and
  the selection stay as they were.\<close>

lemma rejected_fetch_changes_nothing:
  assumes "fst (fetchNearbyPubs_resume out s) = Rejected"
  shows "snd (fetchNearbyPubs_resume out s) = s"
  using assms
  by (auto simp: fetchNearbyPubs_resume_def
      split: outcome.splits payload.splits option.splits if_splits)

lemma fetch_failure_keeps_candidates:
  assumes "fst (fetchNearbyPubs_resume out s) = Rejected \<or>
           (\<exists>code body. out = Response code body \<and> \<not> (200 \<le> code \<and> code \<le> 299))"
  shows "nearbyPubs (fetchSettled out s) = nearbyPubs s \<and>
         selectedPubId (fetchSettled out s) = selectedPubId s"
  using assms
  by (auto simp: fetchSettled_def fetchNearbyPubs_resume_def setStatus_def Let_def
      split: outcome.splits payload.splits option.splits if_splits)

text \<open>A status outside 2xx is shown as an error.\<close>

lemma http_error_is_surfaced:
  assumes "\<not> (200 \<le> code \<and> code \<le> 299)"
  shows "status (fetchSettled (Response code body) s) =
           Some (Error, ''Error fetching local pubs: '' @ digits code)"
  using assms
  by (simp add: fetchSettled_def fetchNearbyPubs_resume_def setStatus_def Let_def)

text \<open>A rejected fetch leaves the status pane as it was: no error is shown.\<close>

lemma rejected_fetch_keeps_status:
  assumes "fst (fetchNearbyPubs_resume out s) = Rejected"
  shows "status (fetchSettled out s) = status s"
  using rejected_fetch_changes_nothing [OF assms]
  by (simp add: fetchSettled_def Let_def)

text \<open>A successful fetch replaces the candidates by the complete new list.\<close>

lemma fetch_success_replaces_candidates:
  assumes "200 \<le> code" "code \<le> 299" "mapElements rs = Some results"
  shows "nearbyPubs (fetchSettled (Response code (Elements rs)) s) = Some results"
  using assms
  by (simp add: fetchSettled_def fetchNearbyPubs_resume_def Let_def)

text \<open>
  C3, evaluated at the failing input. After the first fix, a response with status 200
  whose body is not JSON leaves the candidates as they were (none), but the status
  pane still shows the information message \<open>Fetching nearby pubs\<close>: no error is
  surfaced. The same holds for a body with an element that has no tags. A response
  with status 500 does show an error.
\<close>

theorem malformed_body_surfaces_no_error:
  "status (fetchSettled (Response 200 NotJson) (setCoords c initial)) =
      Some (Info, ''Fetching nearby pubs'') \<and>
   nearbyPubs (fetchSettled (Response 200 NotJson) (setCoords c initial)) = None \<and>
   status (fetchSettled
             (Response 200
                (Elements [\<lparr>el_center = None, el_lat = 0, el_lon = 0, el_tags = None,
                            el_id = IdNum 1\<rparr>]))
             (setCoords c initial)) =
      Some (Info, ''Fetching nearby pubs'') \<and>
   status (fetchSettled (Response 500 NotJson) (setCoords c initial)) =
      Some (Error, ''Error fetching local pubs: 500'')"
proof -
  have d: "digits 500 = ''500''" by code_simp
  show ?thesis
    unfolding first_fix
    by (simp add: fetchSettled_def fetchNearbyPubs_resume_def setStatus_def toPub_def
        initial_def d)
qed

section \<open>The rotation in a run of the program\<close>

text \<open>A pub due south of the user has bearing 180.\<close>

lemma bearing_due_south: "bearingBetween 1 0 0 0 = 180"
proof -
  have "0 < sin (pi / 180)" by (rule sin_gt_zero) simp_all
  then have x: "- sin (pi / 180) < 0" by simp
  have a: "atan2 0 (- sin (pi / 180)) = pi"
    using x by (simp add: atan2_def)
  have r: "js_rem 540 360 = 180" by (simp add: js_rem_def js_trunc_def)
  show ?thesis
    by (simp add: bearingBetween_def degToRad_def a r)
qed

text \<open>A run of the program: the first fix one degree north of the origin, a
  successful fetch that returns one pub at the origin, and an orientation event with
  alpha 0 (heading 360). The compass is rotated by -180.\<close>

lemma due_south_facing_north:
  "rotation
     (setHeading 0
        (fetchSettled
           (Response 200
              (Elements [\<lparr>el_center = None, el_lat = 0, el_lon = 0,
                          el_tags = Some (Some ''The Crown''), el_id = IdNum 1\<rparr>]))
           (setCoords \<lparr>latitude = 1, longitude = 0\<rparr> initial))) = Some (- 180)"
proof -
  let ?p = "\<lparr>latitude = 0, longitude = 0, name = Some ''The Crown'', pub_id = IdNum 1\<rparr>"
  let ?e = "\<lparr>el_center = None, el_lat = 0, el_lon = 0,
             el_tags = Some (Some ''The Crown''), el_id = IdNum 1\<rparr>"
  let ?n = "\<lparr>latitude = 1, longitude = 0\<rparr>"
  define s2 where "s2 = fetchSettled (Response 200 (Elements [?e])) (setCoords ?n initial)"
  have m: "mapElements [?e] = Some [?p]" by (simp add: toPub_def)
  have pubs: "nearbyPubs s2 = Some [?p]"
    unfolding s2_def by (rule fetch_success_replaces_candidates [OF _ _ m]) simp_all
  have loc: "currentLocation s2 = Some ?n" unfolding s2_def by simp
  have sel: "selectedPubId s2 = IdNull" unfolding s2_def by (simp add: initial_def)
  have res: "selectedPub ?n [?p] IdNull = Some ?p"
    by (simp add: selectedPub_def toSorted_def)
  have "rotation (updateBearingUI (s2\<lparr>currentHeading := Some (360 - 0)\<rparr>)) =
          Some (shortRelBearing (bearingBetween 1 0 0 0) 360)"
    using updateBearingUI_rotation [of "s2\<lparr>currentHeading := Some (360 - 0)\<rparr>" ?n "[?p]" ?p]
      pubs loc sel res
    by (simp add: toNumber_def)
  also have "shortRelBearing (bearingBetween 1 0 0 0) 360 = - 180"
    unfolding bearing_due_south
    by (simp add: shortRelBearing_def js_rem_def js_trunc_def)
  finally show ?thesis unfolding setHeading_def s2_def .
qed

text \<open>
  C1 as stated fails: with the target due south (bearing 180) and the device facing
  north (alpha 0, so heading 360), the rotation is -180, which is not in the interval
  open at -180 and closed at 180; the run above writes this rotation to the compass.
\<close>

theorem relative_bearing_counterexample:
  "shortRelBearing 180 360 = - 180 \<and>
   \<not> (- 180 < shortRelBearing 180 360 \<and> shortRelBearing 180 360 \<le> 180) \<and>
   bearingBetween 1 0 0 0 = 180 \<and>
   rotation
     (setHeading 0
        (fetchSettled
           (Response 200
              (Elements [\<lparr>el_center = None, el_lat = 0, el_lon = 0,
                          el_tags = Some (Some ''The Crown''), el_id = IdNum 1\<rparr>]))
           (setCoords \<lparr>latitude = 1, longitude = 0\<rparr> initial))) = Some (- 180)"
proof -
  have "shortRelBearing 180 360 = - 180"
    by (simp add: shortRelBearing_def js_rem_def js_trunc_def)
  then show ?thesis
    using bearing_due_south due_south_facing_north by simp
qed

end
